theory Spec2Isabelle
  imports Main "HOL-Library.Char_ord" "HOL-Library.List_Lexorder" "HOL-Library.AList"
begin

section \<open>Python strings\<close>

text \<open>
  A Python \<^verbatim>\<open>str\<close> is modelled as a \<^typ>\<open>string\<close>: every \<^typ>\<open>char\<close> stands for the
  code point of the same number, so the model covers the strings whose code points lie
  below 256. A value that may be \<^verbatim>\<open>None\<close> is a \<^typ>\<open>string option\<close>.

  \<open>isspace\<close> lists the code points below 256 for which \<^verbatim>\<open>str.isspace\<close> holds; these are
  the characters that \<^verbatim>\<open>str.strip()\<close> removes from both ends.
\<close>

definition isspace :: "char \<Rightarrow> bool" where
  "isspace c = (c \<in> set [CHR 0x09, CHR 0x0A, CHR 0x0B, CHR 0x0C, CHR 0x0D,
                          CHR 0x1C, CHR 0x1D, CHR 0x1E, CHR 0x1F, CHR 0x20,
                          CHR 0x85, CHR 0xA0])"

definition strip :: "string \<Rightarrow> string" where
  "strip s = rev (dropWhile isspace (rev (dropWhile isspace s)))"

text \<open>\<^verbatim>\<open>s.replace(old, new)\<close> for a one-character \<^verbatim>\<open>old\<close>.\<close>

definition replace :: "char \<Rightarrow> string \<Rightarrow> string \<Rightarrow> string" where
  "replace old new s = concat (map (\<lambda>c. if c = old then new else [c]) s)"

text \<open>
  \<^verbatim>\<open>s.split(sep)\<close> for a one-character \<^verbatim>\<open>sep\<close>: the pieces between the separators, empty
  pieces included, so the empty string gives one empty piece.
\<close>

fun split :: "char \<Rightarrow> string \<Rightarrow> string list" where
  "split sep [] = [[]]"
| "split sep (c # cs) =
     (if c = sep then [] # split sep cs
      else (case split sep cs of
              [] \<Rightarrow> [[c]]
            | p # ps \<Rightarrow> (c # p) # ps))"

definition is_digit :: "char \<Rightarrow> bool" where
  "is_digit c = (c \<in> set ''0123456789'')"

section \<open>ISSN validation and normalisation\<close>

definition ISSN_DELIMITER :: char where
  "ISSN_DELIMITER = CHR '',''"

text \<open>
  \<^verbatim>\<open>ISSN_PATTERN = re.compile(r"^[0-9]{4}-?[0-9]{3}[0-9Xx]$")\<close>, used through
  \<^verbatim>\<open>ISSN_PATTERN.match(value)\<close>. The matcher reads the string from the left: four digits,
  the hyphen when it is there, three digits, one character of \<^verbatim>\<open>[0-9Xx]\<close>. Python's
  \<^verbatim>\<open>$\<close> accepts the end of the string and also the position before one final newline.
\<close>

definition ISSN_PATTERN_match :: "string \<Rightarrow> bool" where
  "ISSN_PATTERN_match s =
     (let d4 = take 4 s;
          r1 = drop 4 s;
          r2 = (case r1 of c # r \<Rightarrow> if c = CHR ''-'' then r else r1 | [] \<Rightarrow> r1);
          d3 = take 3 r2;
          r3 = drop 3 r2
      in length d4 = 4 \<and> list_all is_digit d4 \<and>
         length d3 = 3 \<and> list_all is_digit d3 \<and>
         (case r3 of
            [] \<Rightarrow> False
          | c # r4 \<Rightarrow> (is_digit c \<or> c = CHR ''X'' \<or> c = CHR ''x'') \<and>
                      (r4 = [] \<or> r4 = [CHR 0x0A])))"

definition is_valid_issn :: "string \<Rightarrow> bool" where
  "is_valid_issn v = ISSN_PATTERN_match v"

definition normalize_issn :: "string \<Rightarrow> string" where
  "normalize_issn v = replace (CHR '' '') [] v"

text \<open>
  The loop of \<^verbatim>\<open>parse_issns\<close> over the pieces; \<open>issns\<close> is the list being appended to.
\<close>

fun parse_issns_loop :: "string list \<Rightarrow> string list \<Rightarrow> string list" where
  "parse_issns_loop [] issns = issns"
| "parse_issns_loop (part # parts) issns =
     (let cleaned = strip part
      in if cleaned \<noteq> [] \<and> is_valid_issn cleaned
         then parse_issns_loop parts (issns @ [normalize_issn cleaned])
         else parse_issns_loop parts issns)"

text \<open>
  \<^verbatim>\<open>if not issn_field: return []\<close> holds for \<^verbatim>\<open>None\<close> and for the empty string.
\<close>

definition parse_issns :: "string option \<Rightarrow> string list" where
  "parse_issns issn_field =
     (case issn_field of
        None \<Rightarrow> []
      | Some s \<Rightarrow> if s = [] then [] else parse_issns_loop (split ISSN_DELIMITER s) [])"

text \<open>
  The pattern in the words of the specification: four digits, an optional hyphen, three
  digits and a final character that is a digit or the letter X in either case. It is
  stated by positions, for comparison with the matcher above.
\<close>

definition issn_shape :: "string \<Rightarrow> bool" where
  "issn_shape s =
     (let final = (\<lambda>c. is_digit c \<or> c = CHR ''X'' \<or> c = CHR ''x'')
      in (length s = 8 \<and> list_all is_digit (take 7 s) \<and> final (s ! 7)) \<or>
         (length s = 9 \<and> list_all is_digit (take 4 s) \<and> s ! 4 = CHR ''-'' \<and>
          list_all is_digit (take 3 (drop 5 s)) \<and> final (s ! 8)))"

section \<open>Parsing and rounding a score\<close>

datatype error =
    FileNotFoundError string
  | ValueError string
  | OverflowError string
  | AttributeError
  | KeyError string

text \<open>
  A Python \<^verbatim>\<open>float\<close> is an IEEE binary64 number. A finite one is kept by its exact value
  \<open>m * 2 ^ p\<close> as \<open>Finite m p\<close>; the sign of an infinity plays no part below.
\<close>

datatype pyfloat = Finite int int | Infinite | NaN

text \<open>Division of \<open>n\<close> by a positive \<open>d\<close>, rounded to the nearest integer, ties to even.\<close>

definition round_half_even :: "int \<Rightarrow> int \<Rightarrow> int" where
  "round_half_even n d =
     (let q = n div d; r = n mod d
      in if 2 * r < d then q
         else if d < 2 * r then q + 1
         else if even q then q else q + 1)"

text \<open>The number of binary digits of a positive integer.\<close>

function bitlen :: "int \<Rightarrow> nat" where
  "bitlen n = (if n \<le> 0 then 0 else Suc (bitlen (n div 2)))"
  by pat_completeness auto
termination
  by (relation "measure nat") auto

declare bitlen.simps [simp del]

text \<open>The integer \<open>e\<close> with \<open>2 ^ e \<le> n / d < 2 ^ (e + 1)\<close>, for positive \<open>n\<close> and \<open>d\<close>.\<close>

definition floor_log2 :: "int \<Rightarrow> int \<Rightarrow> int" where
  "floor_log2 n d =
     (let l = int (bitlen n) - int (bitlen d)
      in if (if 0 \<le> l then d * 2 ^ nat l \<le> n else d \<le> n * 2 ^ nat (- l))
         then l else l - 1)"

text \<open>
  The binary64 number nearest to \<open>a * 10 ^ k\<close> for \<open>a \<ge> 0\<close> (ties to even): 53
  significant bits, least exponent \<open>-1074\<close>, and infinity from \<open>2 ^ 1024\<close> on, as the
  correctly rounded conversion of CPython gives it.
\<close>

definition nearest_double :: "int \<Rightarrow> int \<Rightarrow> pyfloat" where
  "nearest_double a k =
     (if a = 0 then Finite 0 0
      else
        let n = (if 0 \<le> k then a * 10 ^ nat k else a);
            d = (if 0 \<le> k then 1 else 10 ^ nat (- k));
            e = floor_log2 n d;
            p = max (e - 52) (- 1074);
            m = (if 0 \<le> p then round_half_even n (d * 2 ^ nat p)
                 else round_half_even (n * 2 ^ nat (- p)) d)
        in if 971 < p \<or> (p = 971 \<and> 2 ^ 53 \<le> m) then Infinite else Finite m p)"

definition int_of_digits :: "string \<Rightarrow> int" where
  "int_of_digits ds = foldl (\<lambda>a c. 10 * a + (of_char c - 48)) 0 ds"

definition lower :: "char \<Rightarrow> char" where
  "lower c = (if c \<in> set ''ABCDEFGHIJKLMNOPQRSTUVWXYZ''
              then char_of (of_char c + (32 :: nat)) else c)"

text \<open>
  \<^verbatim>\<open>float(s)\<close> for a string, in four steps. Underscores are taken out first: each one must
  stand between two digits.
\<close>

fun drop_underscores :: "char \<Rightarrow> string \<Rightarrow> string option" where
  "drop_underscores prev [] = (if prev = CHR ''_'' then None else Some [])"
| "drop_underscores prev (c # cs) =
     (if c = CHR ''_''
      then (if is_digit prev then drop_underscores c cs else None)
      else if prev = CHR ''_'' \<and> \<not> is_digit c then None
      else map_option ((#) c) (drop_underscores c cs))"

text \<open>
  Then the white space at both ends goes: the ASCII white space, and the two other
  space characters below 256, which \<^verbatim>\<open>float\<close> turns into blanks beforehand.
\<close>

definition float_space :: "char \<Rightarrow> bool" where
  "float_space c = (c \<in> set [CHR 0x09, CHR 0x0A, CHR 0x0B, CHR 0x0C, CHR 0x0D, CHR 0x20,
                             CHR 0x85, CHR 0xA0])"

definition take_sign :: "string \<Rightarrow> bool \<times> string" where
  "take_sign s =
     (case s of
        [] \<Rightarrow> (False, [])
      | c # r \<Rightarrow> if c = CHR ''-'' then (True, r)
                 else if c = CHR ''+'' then (False, r)
                 else (False, s))"

text \<open>
  A decimal number: a sign, digits with at most one point and at least one digit, and an
  exponent part, which needs a digit. The result is the sign, the digits read as one
  number, and the power of ten that goes with them.
\<close>

definition parse_decimal :: "string \<Rightarrow> (bool \<times> int \<times> int) option" where
  "parse_decimal s =
     (let (neg, r0) = take_sign s;
          ip = takeWhile is_digit r0;
          r1 = dropWhile is_digit r0;
          (fp, r2) = (case r1 of
                        [] \<Rightarrow> ([], r1)
                      | c # r \<Rightarrow> if c = CHR ''.''
                                 then (takeWhile is_digit r, dropWhile is_digit r)
                                 else ([], r1))
      in if ip = [] \<and> fp = [] then None
         else (case r2 of
                 [] \<Rightarrow> Some (neg, int_of_digits (ip @ fp), - int (length fp))
               | c # r3 \<Rightarrow>
                   if c = CHR ''e'' \<or> c = CHR ''E''
                   then (let (eneg, ds) = take_sign r3
                         in if ds \<noteq> [] \<and> list_all is_digit ds
                            then Some (neg, int_of_digits (ip @ fp),
                                       (if eneg then - int_of_digits ds
                                        else int_of_digits ds) - int (length fp))
                            else None)
                   else None))"

text \<open>\<open>None\<close> stands for the \<^verbatim>\<open>ValueError\<close> of a string that is no number.\<close>

definition py_float :: "string \<Rightarrow> pyfloat option" where
  "py_float s =
     (case drop_underscores (CHR 0x00) s of
        None \<Rightarrow> None
      | Some s1 \<Rightarrow>
          let s2 = rev (dropWhile float_space (rev (dropWhile float_space s1)));
              word = map lower (snd (take_sign s2))
          in if word = ''inf'' \<or> word = ''infinity'' then Some Infinite
             else if word = ''nan'' then Some NaN
             else (case parse_decimal s2 of
                     None \<Rightarrow> None
                   | Some (neg, a, k) \<Rightarrow>
                       (case nearest_double a k of
                          Finite m p \<Rightarrow> Some (Finite (if neg then - m else m) p)
                        | x \<Rightarrow> Some x)))"

text \<open>
  \<^verbatim>\<open>int(round(x))\<close>: the nearest integer, ties to even; it raises on an infinity and
  on a NaN.
\<close>

definition py_round :: "pyfloat \<Rightarrow> error + int" where
  "py_round x =
     (case x of
        Finite m p \<Rightarrow> Inr (if 0 \<le> p then m * 2 ^ nat p else round_half_even m (2 ^ nat (- p)))
      | Infinite \<Rightarrow> Inl (OverflowError ''cannot convert float infinity to integer'')
      | NaN \<Rightarrow> Inl (ValueError ''cannot convert float NaN to integer''))"

text \<open>
  \<^verbatim>\<open>parse_sjr\<close>. On \<^verbatim>\<open>None\<close> the call \<^verbatim>\<open>value.strip()\<close> raises. Only the call of
  \<^verbatim>\<open>float\<close> stands inside the \<^verbatim>\<open>try\<close>; the rounding comes after it.
\<close>

definition parse_sjr :: "string option \<Rightarrow> error + int option" where
  "parse_sjr value =
     (case value of
        None \<Rightarrow> Inl AttributeError
      | Some v \<Rightarrow>
          let cleaned = strip v
          in if cleaned = [] then Inr None
             else
               let cleaned = replace (CHR '' '') [] cleaned;
                   cleaned =
                     (if CHR '','' \<in> set cleaned \<and> CHR ''.'' \<in> set cleaned
                      then replace (CHR '','') ''.'' (replace (CHR ''.'') [] cleaned)
                      else if CHR '','' \<in> set cleaned
                      then replace (CHR '','') ''.'' cleaned
                      else cleaned)
               in (case py_float cleaned of
                     None \<Rightarrow> Inr None
                   | Some numeric \<Rightarrow>
                       (case py_round numeric of
                          Inl e \<Rightarrow> Inl e
                        | Inr n \<Rightarrow> Inr (Some n))))"

section \<open>Reading the rows\<close>

text \<open>
  The file system is a map from a path to what \<^verbatim>\<open>csv.reader(handle, delimiter=";")\<close>
  yields for the file at that path: its rows in order, each the list of its fields. The
  tokeniser of the \<^verbatim>\<open>csv\<close> module and the decoding of the file are not part of the model.

  \<^verbatim>\<open>csv.DictReader\<close> takes the first row as \<open>fieldnames\<close>, leaves out every later row
  that has no field, and makes a dictionary of each other row: the names zipped with the
  fields, a name without a field getting \<^verbatim>\<open>None\<close>. A dictionary is an association list in
  the order of insertion; where a name occurs twice the later field counts. \<^verbatim>\<open>d.get(k, v)\<close>
  is the value under \<open>k\<close>, and \<open>v\<close> when there is none.
\<close>

type_synonym row_dict = "(string \<times> string option) list"

definition dict_row :: "string list \<Rightarrow> string list \<Rightarrow> row_dict" where
  "dict_row fieldnames row =
     zip fieldnames (map Some row @ replicate (length fieldnames - length row) None)"

definition DictReader :: "string list \<Rightarrow> string list list \<Rightarrow> row_dict list" where
  "DictReader fieldnames rows = map (dict_row fieldnames) (filter (\<lambda>row. row \<noteq> []) rows)"

definition dict_get :: "row_dict \<Rightarrow> string \<Rightarrow> string \<Rightarrow> string option" where
  "dict_get d k dflt = (case map_of (rev d) k of None \<Rightarrow> Some dflt | Some v \<Rightarrow> v)"

section \<open>Building the map\<close>

text \<open>
  The map from ISSN to score is a Python dictionary: an association list with one pair for
  each key, in the order of first insertion. \<^const>\<open>AList.update\<close> replaces the value of a key
  in place and puts a new key at the end, as an assignment \<^verbatim>\<open>sjr_map[issn] = v\<close> does.
\<close>

type_synonym sjr_map = "(string \<times> int) list"

text \<open>The body of the inner loop: the conditional assignment to \<^verbatim>\<open>sjr_map[issn]\<close>.\<close>

definition store_score :: "sjr_map \<Rightarrow> string \<Rightarrow> int \<Rightarrow> sjr_map" where
  "store_score sjr_map issn sjr_value =
     (case map_of sjr_map issn of
        Some old \<Rightarrow>
          if old \<noteq> sjr_value
          then AList.update issn (max old sjr_value) sjr_map
          else AList.update issn sjr_value sjr_map
      | None \<Rightarrow> AList.update issn sjr_value sjr_map)"

text \<open>
  The update in the words of the specification: the maximum of the value there, or of the
  incoming score when the key is new, and the incoming score is stored, with no test.
\<close>

definition store_max :: "sjr_map \<Rightarrow> string \<Rightarrow> int \<Rightarrow> sjr_map" where
  "store_max sjr_map issn sjr_value =
     AList.update issn
       (max (case map_of sjr_map issn of None \<Rightarrow> sjr_value | Some old \<Rightarrow> old) sjr_value)
       sjr_map"

text \<open>
  The body of the loop over the rows. \<^verbatim>\<open>row.get("Issn", "").strip()\<close> comes first and
  raises on \<^verbatim>\<open>None\<close>; then the score is parsed, and a row without a score is left with
  \<^verbatim>\<open>continue\<close>.
\<close>

definition process_row :: "row_dict \<Rightarrow> sjr_map \<Rightarrow> error + sjr_map" where
  "process_row row sjr_map =
     (case dict_get row ''Issn'' [] of
        None \<Rightarrow> Inl AttributeError
      | Some f \<Rightarrow>
          let issn_field = strip f
          in (case parse_sjr (dict_get row ''SJR'' []) of
                Inl e \<Rightarrow> Inl e
              | Inr None \<Rightarrow> Inr sjr_map
              | Inr (Some sjr_value) \<Rightarrow>
                  Inr (foldl (\<lambda>m issn. store_score m issn sjr_value) sjr_map
                         (parse_issns (Some issn_field)))))"

fun process_rows :: "row_dict list \<Rightarrow> sjr_map \<Rightarrow> error + sjr_map" where
  "process_rows [] sjr_map = Inr sjr_map"
| "process_rows (row # rows) sjr_map =
     (case process_row row sjr_map of
        Inl e \<Rightarrow> Inl e
      | Inr sjr_map' \<Rightarrow> process_rows rows sjr_map')"

definition load_sjr_map ::
  "(string \<rightharpoonup> string list list) \<Rightarrow> string \<Rightarrow> error + sjr_map" where
  "load_sjr_map fs csv_path =
     (case fs csv_path of
        None \<Rightarrow> Inl (FileNotFoundError (''CSV file not found: '' @ csv_path))
      | Some [] \<Rightarrow> Inl (ValueError ''CSV header is missing.'')
      | Some (fieldnames # rows) \<Rightarrow>
          if ''Issn'' \<notin> set fieldnames \<or> ''SJR'' \<notin> set fieldnames
          then Inl (ValueError ''CSV header missing required columns: Issn, SJR'')
          else process_rows (DictReader fieldnames rows) [])"

text \<open>
  What a row gives to the map, read off the loop body: its ISSNs and its score.
\<close>

definition row_issns :: "row_dict \<Rightarrow> string list" where
  "row_issns row =
     (case dict_get row ''Issn'' [] of
        None \<Rightarrow> []
      | Some f \<Rightarrow> parse_issns (Some (strip f)))"

definition row_score :: "row_dict \<Rightarrow> int option" where
  "row_score row =
     (case parse_sjr (dict_get row ''SJR'' []) of
        Inr (Some sjr_value) \<Rightarrow> Some sjr_value
      | _ \<Rightarrow> None)"

text \<open>The scores of the rows that have a score and contain the ISSN \<open>k\<close>.\<close>

definition scores_of :: "row_dict list \<Rightarrow> string \<Rightarrow> int list" where
  "scores_of rows k =
     concat (map (\<lambda>row. case row_score row of
                           None \<Rightarrow> []
                         | Some v \<Rightarrow> if k \<in> set (row_issns row) then [v] else []) rows)"

section \<open>Writing the module\<close>

definition digit_char :: "nat \<Rightarrow> char" where
  "digit_char n = char_of (48 + n)"

fun nat_digits :: "nat \<Rightarrow> string" where
  "nat_digits n =
     (if n < 10 then [digit_char n] else nat_digits (n div 10) @ [digit_char (n mod 10)])"

declare nat_digits.simps [simp del]

text \<open>\<^verbatim>\<open>str(i)\<close> for an integer, as the f-string formats the score.\<close>

definition str_int :: "int \<Rightarrow> string" where
  "str_int i = (if i < 0 then CHR ''-'' # nat_digits (nat (- i)) else nat_digits (nat i))"

text \<open>\<^verbatim>\<open>sep.join(lines)\<close>.\<close>

fun join :: "string \<Rightarrow> string list \<Rightarrow> string" where
  "join sep [] = []"
| "join sep [l] = l"
| "join sep (l # l' # ls) = l @ sep @ join sep (l' # ls)"

text \<open>
  The loop of \<^verbatim>\<open>write_js_module\<close> over the sorted keys; \<open>lines\<close> is the list being
  appended to. A key that the dictionary does not have would raise \<^verbatim>\<open>KeyError\<close>.
\<close>

fun entry_lines :: "sjr_map \<Rightarrow> string list \<Rightarrow> string list \<Rightarrow> error + string list" where
  \<open>entry_lines sjr_map [] lines = Inr lines\<close>
| \<open>entry_lines sjr_map (issn # issns) lines =
     (case map_of sjr_map issn of
        None \<Rightarrow> Inl (KeyError issn)
      | Some v \<Rightarrow>
          entry_lines sjr_map issns
            (lines @ [''    "'' @ issn @ ''": '' @ str_int v @ '','']))\<close>

text \<open>
  \<^verbatim>\<open>write_js_module\<close>; the result is the text that \<^verbatim>\<open>output_path.write_text\<close> receives.
  \<^verbatim>\<open>sorted(sjr_map)\<close> is the list of the keys in the order of strings, which compares code
  points from the left.
\<close>

definition write_js_module :: "sjr_map \<Rightarrow> error + string" where
  "write_js_module sjr_map =
     (let lines = [''// Scimago SJR mapping generated from scimagojr_2024.csv.'',
                   [],
                   ''export const SCIMAGO_SJR = {'']
      in (case entry_lines sjr_map (sort (map fst sjr_map)) lines of
            Inl e \<Rightarrow> Inl e
          | Inr lines \<Rightarrow> Inr (join [CHR 0x0A] (lines @ [''};''] @ [[]]))))"

section \<open>Auxiliary notions for the proofs\<close>

text \<open>
  The value under a key after one more score \<open>v\<close> has been stored there: \<open>v\<close> itself for
  a new key, the larger of the two otherwise.
\<close>

definition merge_score :: "int option \<Rightarrow> int \<Rightarrow> int option" where
  "merge_score cur v = Some (case cur of None \<Rightarrow> v | Some old \<Rightarrow> max old v)"

section \<open>Facts about strings and the ISSN pattern\<close>

lemma replace_space_filter: "replace (CHR '' '') [] s = filter (\<lambda>c. c \<noteq> CHR '' '') s"
  by (induction s) (simp_all add: replace_def)

lemma isspace_space: "isspace (CHR '' '')"
  by (simp add: isspace_def)

lemma normalize_issn_id: "\<forall>c \<in> set s. \<not> isspace c \<Longrightarrow> normalize_issn s = s"
  unfolding normalize_issn_def replace_space_filter
  using isspace_space by (induction s) auto

lemma not_digit_hyphen: "\<not> is_digit (CHR ''-'')"
  by (simp add: is_digit_def)

lemma digit_not_space: "is_digit c \<Longrightarrow> \<not> isspace c"
  by (auto simp: is_digit_def isspace_def)

lemma dropWhile_hd: "dropWhile P xs \<noteq> [] \<Longrightarrow> \<not> P (hd (dropWhile P xs))"
  by (metis hd_dropWhile)

lemma strip_last: "strip s \<noteq> [] \<Longrightarrow> \<not> isspace (last (strip s))"
  unfolding strip_def
  by (metis hd_dropWhile last_rev rev_is_Nil_conv)

lemma list_cases10:
  fixes s :: "'a list"
  obtains "length s < 8"
  | a b c d e f g h where "s = [a,b,c,d,e,f,g,h]"
  | a b c d e f g h i where "s = [a,b,c,d,e,f,g,h,i]"
  | a b c d e f g h i j where "s = [a,b,c,d,e,f,g,h,i,j]"
  | a b c d e f g h i j k r where "s = a#b#c#d#e#f#g#h#i#j#k#r"
proof -
  show ?thesis
  proof (cases "length s < 8")
    case True then show ?thesis using that(1) by simp
  next
    case False
    then obtain a b c d e f g h r where s: "s = a#b#c#d#e#f#g#h#r"
      by (cases s; simp; cases "tl s"; simp; cases "tl (tl s)"; simp;
          cases "tl (tl (tl s))"; simp; cases "tl (tl (tl (tl s)))"; simp;
          cases "tl (tl (tl (tl (tl s))))"; simp; cases "tl (tl (tl (tl (tl (tl s)))))"; simp;
          cases "tl (tl (tl (tl (tl (tl (tl s))))))"; simp)
    show ?thesis
    proof (cases r)
      case Nil with s that(2) show ?thesis by simp
    next
      case (Cons i r1)
      show ?thesis
      proof (cases r1)
        case Nil with s Cons that(3) show ?thesis by simp
      next
        case (Cons j r2)
        note c2 = this
        show ?thesis
        proof (cases r2)
          case Nil with s \<open>r = i # r1\<close> c2 that(4) show ?thesis by simp
        next
          case (Cons k r3) with s \<open>r = i # r1\<close> c2 that(5) show ?thesis by simp
        qed
      qed
    qed
  qed
qed

lemma match_short:
  assumes "length s < 8" shows "\<not> ISSN_PATTERN_match s"
proof
  assume m: "ISSN_PATTERN_match s"
  define r1 where "r1 = drop 4 s"
  define r2 where "r2 = (case r1 of c # r \<Rightarrow> if c = CHR ''-'' then r else r1 | [] \<Rightarrow> r1)"
  from m have "drop 3 r2 \<noteq> []"
    unfolding ISSN_PATTERN_match_def Let_def r1_def r2_def by (auto split: list.splits)
  then have "3 < length r2" by simp
  moreover have "length r2 \<le> length r1"
    unfolding r2_def by (auto split: list.splits)
  ultimately show False using assms by (simp add: r1_def)
qed

lemma shape_short: "length s < 8 \<Longrightarrow> \<not> issn_shape s"
  by (auto simp: issn_shape_def Let_def)

lemma newline_space: "isspace (CHR 0x0A)"
  by (simp add: isspace_def)

lemma match_iff_shape:
  assumes "s = [] \<or> \<not> isspace (last s)"
  shows "ISSN_PATTERN_match s = issn_shape s"
proof (cases s rule: list_cases10)
  case 1
  then show ?thesis by (simp add: match_short shape_short)
next
  case (2 a b c d e f g h)
  then show ?thesis
    using not_digit_hyphen
    by (auto simp: ISSN_PATTERN_match_def issn_shape_def)
next
  case (3 a b c d e f g h i)
  then show ?thesis
    using not_digit_hyphen assms newline_space
    by (auto simp: ISSN_PATTERN_match_def issn_shape_def)
next
  case (4 a b c d e f g h i j)
  then show ?thesis
    using not_digit_hyphen assms newline_space
    by (auto simp: ISSN_PATTERN_match_def issn_shape_def)
next
  case (5 a b c d e f g h i j k r)
  then show ?thesis
    by (auto simp: ISSN_PATTERN_match_def issn_shape_def)
qed

lemma shape_no_space:
  assumes "issn_shape s" shows "\<forall>c \<in> set s. \<not> isspace c"
proof -
  have h: "\<not> isspace (CHR ''-'')" "\<not> isspace (CHR ''X'')" "\<not> isspace (CHR ''x'')"
    by (simp_all add: isspace_def)
  show ?thesis
  proof (cases s rule: list_cases10)
    case 1
    then show ?thesis using assms shape_short by blast
  next
    case (2 a b c d e f g h)
    then show ?thesis using assms h digit_not_space
      by (auto simp: issn_shape_def)
  next
    case (3 a b c d e f g h i)
    then show ?thesis using assms h digit_not_space
      by (auto simp: issn_shape_def)
  next
    case (4 a b c d e f g h i j)
    then show ?thesis using assms by (simp add: issn_shape_def)
  next
    case (5 a b c d e f g h i j k r)
    then show ?thesis using assms by (simp add: issn_shape_def)
  qed
qed

lemma parse_issns_loop_eq:
  "parse_issns_loop parts issns =
     issns @ map normalize_issn
               (filter (\<lambda>c. c \<noteq> [] \<and> is_valid_issn c) (map strip parts))"
  by (induction parts arbitrary: issns) (simp_all add: Let_def)

lemma valid_strip_iff: "(strip p \<noteq> [] \<and> is_valid_issn (strip p)) = issn_shape (strip p)"
proof -
  have "is_valid_issn (strip p) = issn_shape (strip p)"
    unfolding is_valid_issn_def using strip_last [of p] by (intro match_iff_shape) blast
  moreover have "issn_shape (strip p) \<Longrightarrow> strip p \<noteq> []"
    using shape_short [of "strip p"] by auto
  ultimately show ?thesis by blast
qed

section \<open>The ISSN field parser\<close>

text \<open>
  The two forms of the pattern on examples, and the one place where they differ: the
  matcher accepts a final newline, which a trimmed piece never has.
\<close>

lemma issn_shape_examples:
  "issn_shape ''1234-5678'' \<and> issn_shape ''12345678'' \<and> issn_shape ''0987-654X'' \<and>
   issn_shape ''1234-567x'' \<and> \<not> issn_shape ''bad-issn'' \<and> \<not> issn_shape ''1234--567'' \<and>
   \<not> issn_shape ''1234-56789'' \<and> \<not> issn_shape ''1234 5678''"
  by code_simp

lemma is_valid_issn_final_newline:
  "is_valid_issn (''1234-5678'' @ [CHR 0x0A]) \<and> \<not> issn_shape (''1234-5678'' @ [CHR 0x0A])"
  by code_simp

lemma parse_issns_example:
  "parse_issns (Some ''1234-5678, 0987-654X,bad-issn, 12345678 ,,1234-567x'') =
     [''1234-5678'', ''0987-654X'', ''12345678'', ''1234-567x'']"
  by code_simp

text \<open>
  \<open>split\<close> is the splitting at the separator and nothing else: its pieces hold no
  separator, joined by the separator they give the string back, and a non-empty list of
  pieces without a separator is what \<open>split\<close> makes of their join.
\<close>

lemma split_nonempty: "split sep s \<noteq> []"
  by (induction s) (auto split: list.splits)

lemma split_no_sep_piece: "sep \<notin> set p \<Longrightarrow> split sep p = [p]"
  by (induction p) auto

lemma split_piece_then_sep:
  "sep \<notin> set p \<Longrightarrow> split sep (p @ sep # r) = p # split sep r"
  by (induction p) auto

lemma split_join:
  "ps \<noteq> [] \<Longrightarrow> list_all (\<lambda>p. sep \<notin> set p) ps \<Longrightarrow> split sep (join [sep] ps) = ps"
proof (induction "[sep]" ps rule: join.induct)
  case 1
  then show ?case by simp
next
  case (2 l)
  then show ?case by (simp add: split_no_sep_piece)
next
  case (3 l l' ls)
  then show ?case by (simp add: split_piece_then_sep)
qed

lemma join_split: "join [sep] (split sep s) = s"
proof (induction s)
  case Nil
  then show ?case by simp
next
  case (Cons c s)
  obtain p ps where sp: "split sep s = p # ps"
    using split_nonempty [of sep s] by (cases "split sep s") auto
  with Cons show ?case
    by (cases ps) auto
qed

lemma split_pieces_no_sep: "list_all (\<lambda>p. sep \<notin> set p) (split sep s)"
  by (induction s) (auto split: list.splits)

lemma parse_issns_filter:
  "parse_issns (Some s) = filter issn_shape (map strip (split ISSN_DELIMITER s))"
proof -
  let ?ps = "map strip (split ISSN_DELIMITER s)"
  have loop: "parse_issns_loop (split ISSN_DELIMITER s) [] =
                map normalize_issn (filter issn_shape ?ps)"
    by (simp add: parse_issns_loop_eq filter_map comp_def valid_strip_iff)
  have empty: "s = [] \<Longrightarrow> filter issn_shape ?ps = []"
    using shape_short [of "[]"] by (simp add: strip_def)
  have a: "parse_issns (Some s) = map normalize_issn (filter issn_shape ?ps)"
    using loop empty by (cases "s = []") (simp_all add: parse_issns_def)
  have "map normalize_issn (filter issn_shape ?ps) = filter issn_shape ?ps"
    by (rule map_idI) (auto intro: normalize_issn_id dest: shape_no_space)
  with a show ?thesis by simp
qed

text \<open>
  Claim C5. For every raw Issn field \<open>s\<close>, \<open>parse_issns\<close> splits it at the commas: the
  pieces hold no comma and joined by commas they are \<open>s\<close>. It trims each piece and keeps
  exactly the trimmed pieces of the shape four digits, optional hyphen, three digits, final
  digit or X in either case, in their order; every other piece is dropped without an
  error. A kept piece is the trimmed piece itself: removing blanks changes nothing in it
  and the hyphen stays. Said from the pieces: for every non-empty list of pieces without
  a comma, the field made of them with commas in between gives the trimmed pieces of
  that shape. The empty field and the missing field (\<^verbatim>\<open>None\<close>) give the empty list.
\<close>

theorem parse_issns_spec:
  "parse_issns None = [] \<and>
   parse_issns (Some []) = [] \<and>
   ISSN_DELIMITER = CHR '','' \<and>
   join '','' (split ISSN_DELIMITER s) = s \<and>
   list_all (\<lambda>p. CHR '','' \<notin> set p) (split ISSN_DELIMITER s) \<and>
   parse_issns (Some s) =
     map normalize_issn (filter issn_shape (map strip (split ISSN_DELIMITER s))) \<and>
   parse_issns (Some s) = filter issn_shape (map strip (split ISSN_DELIMITER s)) \<and>
   (pieces \<noteq> [] \<and> list_all (\<lambda>p. CHR '','' \<notin> set p) pieces \<longrightarrow>
      parse_issns (Some (join '','' pieces)) = filter issn_shape (map strip pieces) \<and>
      parse_issns (Some (join '','' pieces)) =
        map normalize_issn (filter issn_shape (map strip pieces)))"
proof -
  have d: "ISSN_DELIMITER = CHR '',''" by (simp add: ISSN_DELIMITER_def)
  have n: "map normalize_issn (filter issn_shape xs) = filter issn_shape xs" for xs
    by (rule map_idI) (auto intro: normalize_issn_id dest: shape_no_space)
  have p: "parse_issns (Some (join '','' pieces)) = filter issn_shape (map strip pieces)"
    if "pieces \<noteq> []" "list_all (\<lambda>p. CHR '','' \<notin> set p) pieces"
    using that split_join [of pieces "CHR '',''"] by (simp add: parse_issns_filter d)
  have e: "parse_issns None = [] \<and> parse_issns (Some []) = []"
    by (simp add: parse_issns_def)
  have j: "join '','' (split ISSN_DELIMITER s) = s"
    unfolding d by (rule join_split)
  have c: "list_all (\<lambda>p. CHR '','' \<notin> set p) (split ISSN_DELIMITER s)"
    unfolding d by (rule split_pieces_no_sep)
  have f: "parse_issns (Some s) = filter issn_shape (map strip (split ISSN_DELIMITER s))"
    by (rule parse_issns_filter)
  have g: "parse_issns (Some s) =
             map normalize_issn (filter issn_shape (map strip (split ISSN_DELIMITER s)))"
    by (simp only: f n)
  show ?thesis
    using d e j c f g p by (simp only: n) blast
qed

theorem parse_issns_spec_witness:
  "list_all (\<lambda>p. CHR '','' \<notin> set p) [''1234-5678'', '' 0987-654X '', ''bad-issn'', '''', ''1234567x''] \<and>
   join '','' [''1234-5678'', '' 0987-654X '', ''bad-issn'', '''', ''1234567x''] =
     ''1234-5678, 0987-654X ,bad-issn,,1234567x'' \<and>
   split ISSN_DELIMITER ''1234-5678, 0987-654X ,bad-issn,,1234567x'' =
     [''1234-5678'', '' 0987-654X '', ''bad-issn'', '''', ''1234567x''] \<and>
   parse_issns (Some ''1234-5678, 0987-654X ,bad-issn,,1234567x'') =
     [''1234-5678'', ''0987-654X'', ''1234567x'']"
proof -
  let ?ps = "[''1234-5678'', '' 0987-654X '', ''bad-issn'', '''', ''1234567x'']"
  have a: "?ps \<noteq> [] \<and> list_all (\<lambda>p. CHR '','' \<notin> set p) ?ps"
    by simp
  have j: "join '','' ?ps = ''1234-5678, 0987-654X ,bad-issn,,1234567x''"
    by simp
  have s: "split ISSN_DELIMITER ''1234-5678, 0987-654X ,bad-issn,,1234567x'' = ?ps"
    by code_simp
  have f: "filter issn_shape (map strip ?ps) = [''1234-5678'', ''0987-654X'', ''1234567x'']"
    by code_simp
  from parse_issns_spec [of _ ?ps] a have
    "parse_issns (Some (join '','' ?ps)) = filter issn_shape (map strip ?ps)"
    by blast
  with a j s f show ?thesis by simp
qed

text \<open>
  Claim C9. A string without any white space character is left unchanged by
  \<open>normalize_issn\<close>.
\<close>

theorem normalize_issn_no_whitespace:
  "list_all (\<lambda>c. \<not> isspace c) s \<Longrightarrow> normalize_issn s = s"
  by (rule normalize_issn_id) (simp add: list_all_iff)

theorem normalize_issn_no_whitespace_witness:
  "list_all (\<lambda>c. \<not> isspace c) ''1234-567X'' \<and> normalize_issn ''1234-567X'' = ''1234-567X''"
proof -
  have h: "list_all (\<lambda>c. \<not> isspace c) ''1234-567X''" by (simp add: isspace_def)
  from normalize_issn_no_whitespace [OF h] h show ?thesis by simp
qed

section \<open>The score normaliser\<close>

text \<open>
  Claim C2, as the specification states it: \<open>"8,6"\<close> gives 9 and \<open>"1.234,5"\<close> gives 1235.
  The second part fails: the points are taken out and the comma becomes the point, which
  gives \<open>"1234.5"\<close>, but \<^verbatim>\<open>round\<close> sends a tie to the even neighbour, so the result is
  1234.
\<close>

theorem parse_sjr_examples_counterexample:
  "\<not> (parse_sjr (Some ''8,6'') = Inr (Some 9) \<and> parse_sjr (Some ''1.234,5'') = Inr (Some 1235))"
  by code_simp

text \<open>
  Claim C2, amended: \<open>"8,6"\<close> gives 9, and \<open>"1.234,5"\<close> is normalised to \<open>"1234.5"\<close>,
  parsed to the binary64 number 1234.5 and rounded, ties to even, to 1234.
\<close>

theorem parse_sjr_examples:
  "parse_sjr (Some ''8,6'') = Inr (Some 9) \<and>
   replace (CHR '','') ''.'' (replace (CHR ''.'') [] ''1.234,5'') = ''1234.5'' \<and>
   py_float ''1234.5'' = Some (Finite (2469 * 2 ^ 41) (- 42)) \<and>
   py_round (Finite (2469 * 2 ^ 41) (- 42)) = Inr 1234 \<and>
   parse_sjr (Some ''1.234,5'') = Inr (Some 1234)"
  by code_simp

text \<open>
  Claim C6 says that \<open>parse_sjr\<close> raises for no string. The rounding stands outside the
  \<^verbatim>\<open>try\<close>, and \<^verbatim>\<open>float\<close> accepts the words for an infinity and for a NaN: on \<open>"inf"\<close>
  the function raises \<^verbatim>\<open>OverflowError\<close>, on \<open>"nan"\<close> it raises \<^verbatim>\<open>ValueError\<close>.
\<close>

theorem parse_sjr_raises:
  "parse_sjr (Some ''inf'') = Inl (OverflowError ''cannot convert float infinity to integer'') \<and>
   parse_sjr (Some ''nan'') = Inl (ValueError ''cannot convert float NaN to integer'')"
  by code_simp

section \<open>The map builder\<close>

text \<open>
  Claim C10. The conditional assignment of the loop body is the same function of the map,
  the key and the score as the update that stores the maximum without a test.
\<close>

theorem store_score_refines_store_max:
  "store_score sjr_map issn sjr_value = store_max sjr_map issn sjr_value"
  by (simp add: store_score_def store_max_def split: option.split)

text \<open>
  A row that has an Issn field and whose SJR field gives no score (it is empty after
  trimming, or no number) leaves the map as it was, whatever ISSNs the row holds: the loop
  goes on with the rows after it and the same map.
\<close>

lemma process_row_absent_score:
  assumes "dict_get row ''Issn'' [] = Some f"
    and "dict_get row ''SJR'' [] = Some v"
    and "parse_sjr (Some v) = Inr None"
  shows "process_row row sjr_map = Inr sjr_map \<and>
         process_rows (row # rows) sjr_map = process_rows rows sjr_map"
  using assms by (simp add: process_row_def)

lemma process_row_absent_score_example:
  "dict_get (dict_row [''Issn'', ''SJR''] [''1234-5678'', '' '']) ''Issn'' [] = Some ''1234-5678'' \<and>
   dict_get (dict_row [''Issn'', ''SJR''] [''1234-5678'', '' '']) ''SJR'' [] = Some '' '' \<and>
   parse_sjr (Some '' '') = Inr None \<and>
   parse_issns (Some (strip ''1234-5678'')) = [''1234-5678''] \<and>
   process_row (dict_row [''Issn'', ''SJR''] [''1234-5678'', '' '']) [(''1234-5678'', 3)] =
     Inr [(''1234-5678'', 3)]"
proof -
  have a: "dict_get (dict_row [''Issn'', ''SJR''] [''1234-5678'', '' '']) ''Issn'' [] =
             Some ''1234-5678''"
    by code_simp
  have b: "dict_get (dict_row [''Issn'', ''SJR''] [''1234-5678'', '' '']) ''SJR'' [] = Some '' ''"
    by code_simp
  have c: "parse_sjr (Some '' '') = Inr None"
    by code_simp
  have d: "parse_issns (Some (strip ''1234-5678'')) = [''1234-5678'']"
    by code_simp
  from process_row_absent_score [OF a b c] a b c d show ?thesis by simp
qed

text \<open>
  Claim C7 says that every row without a score is skipped and leaves the map as it was.
  A row that ends before the Issn column has \<^verbatim>\<open>None\<close> there, and
  \<^verbatim>\<open>row.get("Issn", "").strip()\<close> raises before the score is looked at: under the header
  \<open>SJR;Issn\<close> the row \<open>abc\<close> has the unparseable score \<open>abc\<close>, and the loop ends with
  \<^verbatim>\<open>AttributeError\<close> instead of going on.
\<close>

theorem process_row_missing_issn_raises:
  "dict_row [''SJR'', ''Issn''] [''abc''] = [(''SJR'', Some ''abc''), (''Issn'', None)] \<and>
   parse_sjr (dict_get (dict_row [''SJR'', ''Issn''] [''abc'']) ''SJR'' []) = Inr None \<and>
   process_row (dict_row [''SJR'', ''Issn''] [''abc'']) [(''1234-5678'', 3)] = Inl AttributeError \<and>
   process_rows (DictReader [''SJR'', ''Issn''] [[''3'', ''1234-5678''], [''abc'']]) [] =
     Inl AttributeError"
  by code_simp

text \<open>
  Claim C8. \<open>load_sjr_map\<close> fails with \<^verbatim>\<open>FileNotFoundError\<close> when the path has no file, and
  with \<^verbatim>\<open>ValueError\<close> when the file has no header row or the header lacks the name
  \<open>Issn\<close> or the name \<open>SJR\<close>, compared as strings. The rows play no part in the result, so
  none of them is processed and no map is returned.
\<close>

theorem load_sjr_map_failures:
  "(fs csv_path = None \<longrightarrow>
      load_sjr_map fs csv_path = Inl (FileNotFoundError (''CSV file not found: '' @ csv_path))) \<and>
   (fs csv_path = Some [] \<longrightarrow>
      load_sjr_map fs csv_path = Inl (ValueError ''CSV header is missing.'')) \<and>
   (fs csv_path = Some (fieldnames # rows) \<and>
    (''Issn'' \<notin> set fieldnames \<or> ''SJR'' \<notin> set fieldnames) \<longrightarrow>
      load_sjr_map fs csv_path =
        Inl (ValueError ''CSV header missing required columns: Issn, SJR''))"
  by (simp add: load_sjr_map_def)

theorem load_sjr_map_failures_witness:
  "load_sjr_map Map.empty ''scimagojr_2024.csv'' =
     Inl (FileNotFoundError ''CSV file not found: scimagojr_2024.csv'') \<and>
   load_sjr_map [''a.csv'' \<mapsto> []] ''a.csv'' = Inl (ValueError ''CSV header is missing.'') \<and>
   load_sjr_map [''a.csv'' \<mapsto> [[''issn'', ''SJR''], [''1234-5678'', ''5'']]] ''a.csv'' =
     Inl (ValueError ''CSV header missing required columns: Issn, SJR'') \<and>
   load_sjr_map [''a.csv'' \<mapsto> [[''Issn'', ''Sjr''], [''1234-5678'', ''inf'']]] ''a.csv'' =
     Inl (ValueError ''CSV header missing required columns: Issn, SJR'')"
proof -
  have a: "load_sjr_map Map.empty ''scimagojr_2024.csv'' =
     Inl (FileNotFoundError ''CSV file not found: scimagojr_2024.csv'')"
    using load_sjr_map_failures [of Map.empty "''scimagojr_2024.csv''"] by simp
  have b: "load_sjr_map [''a.csv'' \<mapsto> []] ''a.csv'' = Inl (ValueError ''CSV header is missing.'')"
    using load_sjr_map_failures [of "[''a.csv'' \<mapsto> []]" "''a.csv''"] by simp
  have c: "load_sjr_map [''a.csv'' \<mapsto> [[''issn'', ''SJR''], [''1234-5678'', ''5'']]] ''a.csv'' =
     Inl (ValueError ''CSV header missing required columns: Issn, SJR'')"
    using load_sjr_map_failures
      [of "[''a.csv'' \<mapsto> [[''issn'', ''SJR''], [''1234-5678'', ''5'']]]" "''a.csv''"
          "[''issn'', ''SJR'']" "[[''1234-5678'', ''5'']]"]
    by simp
  have d: "load_sjr_map [''a.csv'' \<mapsto> [[''Issn'', ''Sjr''], [''1234-5678'', ''inf'']]] ''a.csv'' =
     Inl (ValueError ''CSV header missing required columns: Issn, SJR'')"
    using load_sjr_map_failures
      [of "[''a.csv'' \<mapsto> [[''Issn'', ''Sjr''], [''1234-5678'', ''inf'']]]" "''a.csv''"
          "[''Issn'', ''Sjr'']" "[[''1234-5678'', ''inf'']]"]
    by simp
  from a b c d show ?thesis by blast
qed

text \<open>
  Claim C4. The file with the header \<open>Issn;SJR\<close> and the three rows of the specification
  gives the map with the two keys \<open>1234-5678\<close> and \<open>0987-654X\<close>, both at 5.
\<close>

theorem load_sjr_map_end_to_end:
  "load_sjr_map
     [''scimagojr_2024.csv'' \<mapsto>
        [[''Issn'', ''SJR''],
         [''1234-5678'', ''3,2''],
         [''1234-5678, 0987-654X'', ''5''],
         [''bad-issn'', ''1'']]]
     ''scimagojr_2024.csv'' =
   Inr [(''1234-5678'', 5), (''0987-654X'', 5)] \<and>
   map_of [(''1234-5678'', 5 :: int), (''0987-654X'', 5)] =
     [''0987-654X'' \<mapsto> 5, ''1234-5678'' \<mapsto> 5]"
proof -
  have "load_sjr_map
     [''scimagojr_2024.csv'' \<mapsto>
        [[''Issn'', ''SJR''],
         [''1234-5678'', ''3,2''],
         [''1234-5678, 0987-654X'', ''5''],
         [''bad-issn'', ''1'']]]
     ''scimagojr_2024.csv'' =
   Inr [(''1234-5678'', 5), (''0987-654X'', 5)]"
    by code_simp
  moreover have "map_of [(''1234-5678'', 5 :: int), (''0987-654X'', 5)] =
     [''0987-654X'' \<mapsto> 5, ''1234-5678'' \<mapsto> 5]"
    by (rule ext) simp
  ultimately show ?thesis by blast
qed

theorem load_sjr_map_end_to_end_witness:
  "(case load_sjr_map
           [''scimagojr_2024.csv'' \<mapsto>
              [[''Issn'', ''SJR''],
               [''1234-5678'', ''3,2''],
               [''1234-5678, 0987-654X'', ''5''],
               [''bad-issn'', ''1'']]]
           ''scimagojr_2024.csv'' of
      Inl e \<Rightarrow> False
    | Inr m \<Rightarrow> map_of m ''1234-5678'' = Some 5 \<and> map_of m ''0987-654X'' = Some 5 \<and>
               map_of m ''bad-issn'' = None \<and> length m = 2)"
  using load_sjr_map_end_to_end by simp

lemma map_of_store_score:
  "map_of (store_score m k v) = (map_of m)(k := merge_score (map_of m k) v)"
  by (auto simp: store_score_def merge_score_def update_conv' split: option.split)

lemma merge_score_idem: "merge_score (merge_score cur v) v = merge_score cur v"
  by (simp add: merge_score_def split: option.split)

lemma map_of_foldl_store_score:
  "map_of (foldl (\<lambda>m issn. store_score m issn v) m issns) k =
     (if k \<in> set issns then merge_score (map_of m k) v else map_of m k)"
proof (induction issns arbitrary: m)
  case Nil
  then show ?case by simp
next
  case (Cons i issns)
  show ?case
    by (simp add: Cons.IH map_of_store_score merge_score_idem)
qed

lemma process_row_lookup:
  assumes "process_row row m = Inr m'"
  shows "map_of m' k =
           (case row_score row of
              None \<Rightarrow> map_of m k
            | Some v \<Rightarrow> if k \<in> set (row_issns row) then merge_score (map_of m k) v
                        else map_of m k)"
  using assms
  by (auto simp: process_row_def row_score_def row_issns_def map_of_foldl_store_score
           split: option.splits sum.splits)

lemma scores_of_Cons:
  "scores_of (row # rows) k =
     (case row_score row of
        None \<Rightarrow> []
      | Some v \<Rightarrow> if k \<in> set (row_issns row) then [v] else []) @ scores_of rows k"
  by (simp add: scores_of_def)

lemma process_rows_lookup:
  "process_rows rows m = Inr m' \<Longrightarrow>
     map_of m' k = foldl merge_score (map_of m k) (scores_of rows k)"
proof (induction rows arbitrary: m)
  case Nil
  then show ?case by (simp add: scores_of_def)
next
  case (Cons row rows)
  from Cons.prems obtain m1 where
    r: "process_row row m = Inr m1" and rs: "process_rows rows m1 = Inr m'"
    by (auto split: sum.splits)
  have "map_of m' k = foldl merge_score (map_of m1 k) (scores_of rows k)"
    using Cons.IH [OF rs] .
  then show ?case
    by (simp add: process_row_lookup [OF r] scores_of_Cons split: option.split)
qed

lemma foldl_merge_score_Some:
  "foldl merge_score (Some a) vs = Some (Max (insert a (set vs)))"
proof (induction vs arbitrary: a)
  case Nil
  then show ?case by simp
next
  case (Cons v vs)
  have "foldl merge_score (Some a) (v # vs) = foldl merge_score (Some (max a v)) vs"
    by (simp add: merge_score_def)
  also have "\<dots> = Some (Max (insert (max a v) (set vs)))"
    by (rule Cons.IH)
  also have "Max (insert (max a v) (set vs)) = Max (insert a (set (v # vs)))"
  proof (cases "vs = []")
    case True
    then show ?thesis by (simp add: max.commute)
  next
    case False
    then show ?thesis by (simp add: max.assoc max.left_commute max.commute)
  qed
  finally show ?case .
qed

lemma foldl_merge_score_None:
  "foldl merge_score None vs = (if vs = [] then None else Some (Max (set vs)))"
proof (cases vs)
  case Nil
  then show ?thesis by simp
next
  case (Cons v vs')
  then show ?thesis
    by (simp add: foldl_merge_score_Some) (simp add: merge_score_def foldl_merge_score_Some)
qed

lemma load_sjr_map_lookup:
  assumes "load_sjr_map fs csv_path = Inr sjr_map"
    and "fs csv_path = Some (fieldnames # rows)"
  shows "map_of sjr_map issn =
           (if scores_of (DictReader fieldnames rows) issn = [] then None
            else Some (Max (set (scores_of (DictReader fieldnames rows) issn))))"
proof -
  from assms have "process_rows (DictReader fieldnames rows) [] = Inr sjr_map"
    by (simp add: load_sjr_map_def split: if_splits)
  from process_rows_lookup [OF this, of issn] show ?thesis
    by (simp add: foldl_merge_score_None)
qed

text \<open>The keys of the map are distinct at every moment, as those of a dictionary are.\<close>

lemma distinct_store_score:
  "distinct (map fst m) \<Longrightarrow> distinct (map fst (store_score m k v))"
  by (simp add: store_score_def distinct_update split: option.split)

lemma distinct_foldl_store_score:
  "distinct (map fst m) \<Longrightarrow>
     distinct (map fst (foldl (\<lambda>m issn. store_score m issn v) m issns))"
  by (induction issns arbitrary: m) (simp_all add: distinct_store_score)

lemma distinct_process_row:
  "process_row row m = Inr m' \<Longrightarrow> distinct (map fst m) \<Longrightarrow> distinct (map fst m')"
  by (auto simp: process_row_def distinct_foldl_store_score split: option.splits sum.splits)

lemma distinct_process_rows:
  "process_rows rows m = Inr m' \<Longrightarrow> distinct (map fst m) \<Longrightarrow> distinct (map fst m')"
proof (induction rows arbitrary: m)
  case Nil
  then show ?case by simp
next
  case (Cons row rows)
  then show ?case
    by (auto split: sum.splits dest: distinct_process_row)
qed

lemma distinct_load_sjr_map:
  "load_sjr_map fs csv_path = Inr sjr_map \<Longrightarrow> distinct (map fst sjr_map)"
  by (auto simp: load_sjr_map_def split: option.splits list.splits if_splits
           dest: distinct_process_rows)

text \<open>
  Claim C1. When \<open>load_sjr_map\<close> accepts the file, a key of the returned map is in some
  row that has a score, and its value is the greatest of the scores of the rows that have
  a score and contain the key. A key in two rows with the scores 4 and 7 gets 7.
\<close>

theorem load_sjr_map_stores_maximum:
  assumes "load_sjr_map fs csv_path = Inr sjr_map"
    and "fs csv_path = Some (fieldnames # rows)"
    and "map_of sjr_map issn = Some v"
  shows "scores_of (DictReader fieldnames rows) issn \<noteq> [] \<and>
         v = Max (set (scores_of (DictReader fieldnames rows) issn))"
  using load_sjr_map_lookup [OF assms(1,2), of issn] assms(3)
  by (auto split: if_splits)

theorem load_sjr_map_stores_maximum_witness:
  "load_sjr_map
     [''a.csv'' \<mapsto> [[''Issn'', ''SJR''], [''1234-5678'', ''4''], [''1234-5678'', ''7'']]]
     ''a.csv'' = Inr [(''1234-5678'', 7)] \<and>
   scores_of (DictReader [''Issn'', ''SJR''] [[''1234-5678'', ''4''], [''1234-5678'', ''7'']])
     ''1234-5678'' = [4, 7] \<and>
   (7 :: int) = Max (set (scores_of
      (DictReader [''Issn'', ''SJR''] [[''1234-5678'', ''4''], [''1234-5678'', ''7'']])
      ''1234-5678''))"
proof -
  let ?fs = "[''a.csv'' \<mapsto> [[''Issn'', ''SJR''], [''1234-5678'', ''4''], [''1234-5678'', ''7'']]]"
  have a: "load_sjr_map ?fs ''a.csv'' = Inr [(''1234-5678'', 7)]"
    by code_simp
  have b: "?fs ''a.csv'' = Some ([''Issn'', ''SJR''] # [[''1234-5678'', ''4''], [''1234-5678'', ''7'']])"
    by simp
  have c: "map_of [(''1234-5678'', 7 :: int)] ''1234-5678'' = Some 7"
    by simp
  have d: "scores_of (DictReader [''Issn'', ''SJR''] [[''1234-5678'', ''4''], [''1234-5678'', ''7'']])
     ''1234-5678'' = [4, 7]"
    by code_simp
  from load_sjr_map_stores_maximum [OF a b c] a d show ?thesis by blast
qed

section \<open>The emitter\<close>

lemma map_insort_key: "map f (insort_key f x xs) = insort (f x) (map f xs)"
  by (induction xs) simp_all

lemma map_sort_key: "map f (sort_key f xs) = sort (map f xs)"
  by (induction xs) (simp_all add: map_insort_key)

lemma join_terminated: "join sep (ls @ [[]]) = concat (map (\<lambda>l. l @ sep) ls)"
proof (induction ls)
  case Nil
  then show ?case by simp
next
  case (Cons l ls)
  then show ?case by (cases ls) simp_all
qed

lemma entry_lines_pairs:
  assumes "\<forall>(k, v) \<in> set ps. map_of sjr_map k = Some v"
  shows \<open>entry_lines sjr_map (map fst ps) lines =
           Inr (lines @ map (\<lambda>(issn, v). ''    "'' @ issn @ ''": '' @ str_int v @ '','') ps)\<close>
  using assms
proof (induction ps arbitrary: lines)
  case Nil
  then show ?case by simp
next
  case (Cons p ps)
  obtain k v where p: "p = (k, v)" by (cases p)
  with Cons.prems have kv: "map_of sjr_map k = Some v"
    and rest: "\<forall>(k, v) \<in> set ps. map_of sjr_map k = Some v"
    by auto
  show ?case
    by (simp add: p kv Cons.IH [OF rest])
qed

lemma sorted_pairs_lookup:
  assumes "distinct (map fst sjr_map)"
  shows "\<forall>(k, v) \<in> set (sort_key fst sjr_map). map_of sjr_map k = Some v"
  using assms by auto

text \<open>
  Claim C3, as the specification states it, has the entry lines indented by two blanks.
  For the map with the one key \<open>1234-5678\<close> at 5 that text is not the one written.
\<close>

theorem write_js_module_two_space_counterexample:
  \<open>write_js_module [(''1234-5678'', 5)] \<noteq>
     Inr (''// Scimago SJR mapping generated from scimagojr_2024.csv.\<newline>'' @
          ''\<newline>'' @
          ''export const SCIMAGO_SJR = {\<newline>'' @
          ''  "1234-5678": 5,\<newline>'' @
          ''};\<newline>'')\<close>
  by code_simp

text \<open>
  Claim C3, amended. For a dictionary, the text written is: the header comment line, an
  empty line, the opening line, then for each key in the order of the keys one line of
  four blanks, the key in double quotes, a colon and a blank, the integer and a comma, then
  the closing line; every line, the last too, ends with one newline. The pairs come in
  the sorted order of their keys, each key once.
\<close>

theorem write_js_module_text:
  assumes "distinct (map fst sjr_map)"
  shows \<open>write_js_module sjr_map =
           Inr (concat (map (\<lambda>l. l @ [CHR 0x0A])
                  ([''// Scimago SJR mapping generated from scimagojr_2024.csv.'',
                    [],
                    ''export const SCIMAGO_SJR = {''] @
                   map (\<lambda>(issn, v). ''    "'' @ issn @ ''": '' @ str_int v @ '','')
                     (sort_key fst sjr_map) @
                   [''};'']))) \<and>
         sorted (map fst (sort_key fst sjr_map)) \<and>
         distinct (map fst (sort_key fst sjr_map)) \<and>
         set (sort_key fst sjr_map) = set sjr_map\<close>
proof -
  have keys: "sort (map fst sjr_map) = map fst (sort_key fst sjr_map)"
    by (simp add: map_sort_key)
  have \<open>entry_lines sjr_map (sort (map fst sjr_map))
          [''// Scimago SJR mapping generated from scimagojr_2024.csv.'', [],
           ''export const SCIMAGO_SJR = {''] =
        Inr ([''// Scimago SJR mapping generated from scimagojr_2024.csv.'', [],
              ''export const SCIMAGO_SJR = {''] @
             map (\<lambda>(issn, v). ''    "'' @ issn @ ''": '' @ str_int v @ '','')
               (sort_key fst sjr_map))\<close>
    unfolding keys by (rule entry_lines_pairs) (rule sorted_pairs_lookup [OF assms])
  then have \<open>write_js_module sjr_map =
      Inr (join [CHR 0x0A]
        (([''// Scimago SJR mapping generated from scimagojr_2024.csv.'', [],
              ''export const SCIMAGO_SJR = {''] @
             map (\<lambda>(issn, v). ''    "'' @ issn @ ''": '' @ str_int v @ '','')
               (sort_key fst sjr_map) @ [''};'']) @ [[]]))\<close>
    by (simp add: write_js_module_def)
  then have out: \<open>write_js_module sjr_map =
           Inr (concat (map (\<lambda>l. l @ [CHR 0x0A])
                  ([''// Scimago SJR mapping generated from scimagojr_2024.csv.'',
                    [],
                    ''export const SCIMAGO_SJR = {''] @
                   map (\<lambda>(issn, v). ''    "'' @ issn @ ''": '' @ str_int v @ '','')
                     (sort_key fst sjr_map) @
                   [''};''])))\<close>
    by (simp only: join_terminated)
  have "distinct (map fst (sort_key fst sjr_map))"
    using assms by (simp add: map_sort_key)
  with out show ?thesis
    by (simp add: map_sort_key)
qed

theorem write_js_module_text_witness:
  \<open>distinct (map fst [(''1234-5678'', 5 :: int), (''0987-654X'', -12)]) \<and>
   sort_key fst [(''1234-5678'', 5 :: int), (''0987-654X'', -12)] =
     [(''0987-654X'', -12), (''1234-5678'', 5)] \<and>
   write_js_module [(''1234-5678'', 5), (''0987-654X'', -12)] =
     Inr (''// Scimago SJR mapping generated from scimagojr_2024.csv.\<newline>'' @
          ''\<newline>'' @
          ''export const SCIMAGO_SJR = {\<newline>'' @
          ''    "0987-654X": -12,\<newline>'' @
          ''    "1234-5678": 5,\<newline>'' @
          ''};\<newline>'')\<close>
proof -
  have d: "distinct (map fst [(''1234-5678'', 5 :: int), (''0987-654X'', -12)])"
    by simp
  have s: "sort_key fst [(''1234-5678'', 5 :: int), (''0987-654X'', -12)] =
     [(''0987-654X'', -12), (''1234-5678'', 5)]"
    by code_simp
  have i: "str_int 5 = ''5''" "str_int (- 12) = ''-12''"
    by code_simp+
  from write_js_module_text [OF d] d s i show ?thesis
    by simp
qed

end
